theory Spec2Isabelle
  imports Complex_Main
begin

section \<open>TextOverflowDetector: the document model\<close>

text \<open>
  The detector runs against a host document. What the code reads from and writes to that
  document is made explicit here:
  \<^item> element objects live in a store indexed by node identity (\<open>nodes\<close>); creating or
    cloning an element allocates the next unused identity (\<open>nextNode\<close>);
  \<^item> \<open>bodyChildren\<close> is the child list of \<open>document.body\<close>, \<open>measureElement\<close> is the
    static field \<open>TextOverflowDetector._measureElement\<close>, \<open>now\<close> is what \<open>Date.now()\<close>
    returns;
  \<^item> the layout and style engine is an oracle (\<open>env\<close>): a geometry or style query either
    returns a value or throws an \<open>Error\<close>. \<open>rangeWidth\<close> is the width of the bounding box
    of a range over all children of an element, \<open>offsetWidth\<close> the \<open>offsetWidth\<close> of an
    element of the document, \<open>scratchWidth\<close> the \<open>offsetWidth\<close> of the attached scratch
    node, which its own style and text determine;
  \<^item> \<open>document.querySelector\<close> is a lookup that gives an element or \<open>null\<close>;
    \<open>parseFloat\<close> gives a number or \<open>NaN\<close> (\<open>None\<close>);
  \<^item> JavaScript numbers are modelled as reals.
  A \<open>target\<close> argument is a selector string, an \<open>HTMLElement\<close>, or any other value.
\<close>

type_synonym node = nat

datatype exn = Error string

datatype target = Selector string | Element node | NotElement

record node_rec =
  tagName :: string
  cssText :: string
  style :: "string \<Rightarrow> string option"
  textContent :: string
  childNodes :: nat

record dom_state =
  nodes :: "node \<Rightarrow> node_rec"
  nextNode :: node
  bodyChildren :: "node list"
  measureElement :: "node option"
  now :: nat

record env =
  querySelector :: "string \<Rightarrow> node option"
  innerText :: "node \<Rightarrow> string"
  rangeWidth :: "node \<Rightarrow> exn + real"
  offsetWidth :: "node \<Rightarrow> exn + real"
  scratchWidth :: "node_rec \<Rightarrow> exn + real"
  getComputedStyle :: "node \<Rightarrow> exn + (string \<Rightarrow> string)"
  parseFloat :: "string \<Rightarrow> real option"

record result =
  isOverflowing :: bool
  error :: "string option"
  textWidth :: "real option"
  containerWidth :: "real option"
  availableWidth :: "real option"
  overflowAmount :: "real option"
  textLength :: "nat option"
  timestamp :: nat

record details =
  d_textWidth :: "real option"
  d_containerWidth :: "real option"
  d_availableWidth :: "real option"
  d_overflowAmount :: "real option"
  d_textLength :: "nat option"

subsection \<open>JavaScript helpers\<close>

text \<open>Truthiness of a value that is \<open>null\<close> or a string: only a non-empty string is truthy.\<close>

fun truthy :: "string option \<Rightarrow> bool" where
  "truthy None = False"
| "truthy (Some s) = (s \<noteq> [])"

text \<open>\<open>parseFloat(x) || 0\<close>: \<open>None\<close> stands for \<open>NaN\<close>, which is falsy like \<open>0\<close>.\<close>

definition or_zero :: "real option \<Rightarrow> real" where
  "or_zero v = (case v of None \<Rightarrow> 0 | Some x \<Rightarrow> (if x = 0 then 0 else x))"

text \<open>\<open>Math.round\<close> rounds to the nearest integer, halves towards \<open>+\<infinity>\<close>.\<close>

definition Math_round :: "real \<Rightarrow> real" where
  "Math_round x = of_int \<lfloor>x + 1 / 2\<rfloor>"

definition Math_max :: "real \<Rightarrow> real \<Rightarrow> real" where
  "Math_max a b = (if a < b then b else a)"

text \<open>\<open>String.prototype.trim\<close>, over the white-space characters of ASCII.\<close>

definition isSpace :: "char \<Rightarrow> bool" where
  "isSpace c = (c \<in> set [CHR '' '', CHR 0x09, CHR 0x0A, CHR 0x0B, CHR 0x0C, CHR 0x0D])"

definition trim :: "string \<Rightarrow> string" where
  "trim s = rev (dropWhile isSpace (rev (dropWhile isSpace s)))"

subsection \<open>Private helpers of the class\<close>

definition no_details :: details where
  "no_details = \<lparr>d_textWidth = None, d_containerWidth = None, d_availableWidth = None,
                  d_overflowAmount = None, d_textLength = None\<rparr>"

definition createResult :: "dom_state \<Rightarrow> bool \<Rightarrow> string option \<Rightarrow> details \<Rightarrow> result" where
  "createResult s ov err d =
     \<lparr>isOverflowing = ov, error = err,
      textWidth = d_textWidth d, containerWidth = d_containerWidth d,
      availableWidth = d_availableWidth d, overflowAmount = d_overflowAmount d,
      textLength = d_textLength d, timestamp = now s\<rparr>"

fun getElement :: "env \<Rightarrow> target \<Rightarrow> node option" where
  "getElement env (Selector sel) = querySelector env sel"
| "getElement env (Element e) = Some e"
| "getElement env NotElement = None"

definition template_rec :: node_rec where
  "template_rec =
     \<lparr>tagName = ''span'',
      cssText = ''position: absolute !important; visibility: hidden !important; white-space: nowrap !important; top: -9999px !important; left: -9999px !important; pointer-events: none !important;'',
      style = Map.empty, textContent = [], childNodes = 0\<rparr>"

text \<open>\<open>document.createElement\<close> and \<open>cloneNode()\<close> allocate a new, detached element.\<close>

definition alloc :: "node_rec \<Rightarrow> dom_state \<Rightarrow> node \<times> dom_state" where
  "alloc r s = (nextNode s, s\<lparr>nodes := (nodes s)(nextNode s := r), nextNode := Suc (nextNode s)\<rparr>)"

text \<open>A shallow clone keeps the tag and the attributes (the style), not the children.\<close>

definition cloneNode :: "node \<Rightarrow> dom_state \<Rightarrow> node \<times> dom_state" where
  "cloneNode n s = alloc ((nodes s n)\<lparr>textContent := [], childNodes := 0\<rparr>) s"

definition getMeasureElement :: "dom_state \<Rightarrow> node \<times> dom_state" where
  "getMeasureElement s =
     (case measureElement s of
        None \<Rightarrow> (let (m, s1) = alloc template_rec s;
                     s2 = s1\<lparr>measureElement := Some m\<rparr>
                 in cloneNode m s2)
      | Some m \<Rightarrow> cloneNode m s)"

definition textStyleProps :: "string list" where
  "textStyleProps = [''font-family'', ''font-size'', ''font-weight'', ''font-style'',
                     ''letter-spacing'', ''word-spacing'', ''text-transform'']"

definition setStyle :: "node \<Rightarrow> string \<Rightarrow> string \<Rightarrow> dom_state \<Rightarrow> dom_state" where
  "setStyle n prop v s =
     s\<lparr>nodes := (nodes s)(n := (nodes s n)\<lparr>style := (style (nodes s n))(prop \<mapsto> v)\<rparr>)\<rparr>"

definition copyTextStyles :: "env \<Rightarrow> node \<Rightarrow> node \<Rightarrow> dom_state \<Rightarrow> (exn + unit) \<times> dom_state" where
  "copyTextStyles env source tgt s =
     (case getComputedStyle env source of
        Inl e \<Rightarrow> (Inl e, s)
      | Inr computedStyle \<Rightarrow>
          (Inr (), fold (\<lambda>prop. setStyle tgt prop (computedStyle prop)) textStyleProps s))"

definition setTextContent :: "node \<Rightarrow> string \<Rightarrow> dom_state \<Rightarrow> dom_state" where
  "setTextContent n t s =
     s\<lparr>nodes := (nodes s)(n := (nodes s n)\<lparr>textContent := t,
                                             childNodes := (if t = [] then 0 else 1)\<rparr>)\<rparr>"

text \<open>\<open>document.body.appendChild\<close> moves the node to the end of the child list.\<close>

definition appendChild :: "node \<Rightarrow> dom_state \<Rightarrow> dom_state" where
  "appendChild n s = s\<lparr>bodyChildren := removeAll n (bodyChildren s) @ [n]\<rparr>"

definition removeChild :: "node \<Rightarrow> dom_state \<Rightarrow> dom_state" where
  "removeChild n s = s\<lparr>bodyChildren := removeAll n (bodyChildren s)\<rparr>"

text \<open>\<open>n.parentNode\<close> is non-null exactly when \<open>n\<close> is attached.\<close>

definition hasParent :: "dom_state \<Rightarrow> node \<Rightarrow> bool" where
  "hasParent s n = (n \<in> set (bodyChildren s))"

subsection \<open>detectByRange\<close>

text \<open>The body of the \<open>try\<close> block: the first query that throws ends it.\<close>

definition range_try :: "env \<Rightarrow> node \<Rightarrow> dom_state \<Rightarrow> (exn + result) \<times> dom_state" where
  "range_try env element s =
     (case rangeWidth env element of
        Inl e \<Rightarrow> (Inl e, s)
      | Inr tw \<Rightarrow>
     (case offsetWidth env element of
        Inl e \<Rightarrow> (Inl e, s)
      | Inr cw \<Rightarrow>
     (case getComputedStyle env element of
        Inl e \<Rightarrow> (Inl e, s)
      | Inr computedStyle \<Rightarrow>
          (let paddingLeft = or_zero (parseFloat env (computedStyle ''paddingLeft''));
               paddingRight = or_zero (parseFloat env (computedStyle ''paddingRight''));
               aw = cw - paddingLeft - paddingRight;
               ov = (tw > aw);
               amount = Math_max 0 (tw - aw)
           in (Inr (createResult s ov None
                      \<lparr>d_textWidth = Some (Math_round tw), d_containerWidth = Some cw,
                       d_availableWidth = Some (Math_round aw),
                       d_overflowAmount = Some (Math_round amount),
                       d_textLength = None\<rparr>), s)))))"

definition detectByRange :: "env \<Rightarrow> target \<Rightarrow> dom_state \<Rightarrow> (exn + result) \<times> dom_state" where
  "detectByRange env tgt s =
     (case getElement env tgt of
        None \<Rightarrow> (Inr (createResult s False (Some ''Element not found'') no_details), s)
      | Some element \<Rightarrow>
          if childNodes (nodes s element) = 0
          then (Inr (createResult s False (Some ''No text content'') no_details), s)
          else (case range_try env element s of
                  (Inr r, s') \<Rightarrow> (Inr r, s')
                | (Inl (Error msg), s') \<Rightarrow>
                    (Inr (createResult s' False
                            (Some (''Range detection failed: '' @ msg)) no_details), s')))"

subsection \<open>detectByClone\<close>

definition clone_try :: "env \<Rightarrow> node \<Rightarrow> string \<Rightarrow> dom_state \<Rightarrow> (exn + result) \<times> dom_state" where
  "clone_try env element testText s =
     (let (m, s1) = getMeasureElement s in
      case copyTextStyles env element m s1 of
        (Inl e, s2) \<Rightarrow> (Inl e, s2)
      | (Inr u, s2) \<Rightarrow>
     (let s3 = setTextContent m testText s2;
          s4 = appendChild m s3 in
      case scratchWidth env (nodes s4 m) of
        Inl e \<Rightarrow> (Inl e, s4)
      | Inr tw \<Rightarrow>
     (case offsetWidth env element of
        Inl e \<Rightarrow> (Inl e, s4)
      | Inr cw \<Rightarrow>
     (case getComputedStyle env element of
        Inl e \<Rightarrow> (Inl e, s4)
      | Inr computedStyle \<Rightarrow>
          (let paddingLeft = or_zero (parseFloat env (computedStyle ''paddingLeft''));
               paddingRight = or_zero (parseFloat env (computedStyle ''paddingRight''));
               aw = cw - paddingLeft - paddingRight;
               ov = (tw > aw);
               amount = Math_max 0 (tw - aw);
               s5 = removeChild m s4
           in (Inr (createResult s5 ov None
                      \<lparr>d_textWidth = Some tw, d_containerWidth = Some cw,
                       d_availableWidth = Some (Math_round aw),
                       d_overflowAmount = Some (Math_round amount),
                       d_textLength = Some (length testText)\<rparr>), s5))))))"

text \<open>The \<open>catch\<close> block looks at the static field \<open>_measureElement\<close>, not at the clone.\<close>

definition clone_catch :: "exn \<Rightarrow> dom_state \<Rightarrow> (exn + result) \<times> dom_state" where
  "clone_catch e s =
     (case e of Error msg \<Rightarrow>
        (let s' = (case measureElement s of
                     None \<Rightarrow> s
                   | Some t \<Rightarrow> if hasParent s t then removeChild t s else s)
         in (Inr (createResult s' False
                    (Some (''Clone detection failed: '' @ msg)) no_details), s')))"

definition testTextOf :: "env \<Rightarrow> dom_state \<Rightarrow> node \<Rightarrow> string option \<Rightarrow> string" where
  "testTextOf env s element text =
     (if truthy text then the text
      else if textContent (nodes s element) \<noteq> [] then textContent (nodes s element)
      else innerText env element)"

definition detectByClone ::
  "env \<Rightarrow> target \<Rightarrow> string option \<Rightarrow> dom_state \<Rightarrow> (exn + result) \<times> dom_state" where
  "detectByClone env tgt text s =
     (case getElement env tgt of
        None \<Rightarrow> (Inr (createResult s False (Some ''Element not found'') no_details), s)
      | Some element \<Rightarrow>
          (let testText = testTextOf env s element text in
           if trim testText = []
           then (Inr (createResult s False (Some ''No text content'') no_details), s)
           else (case clone_try env element testText s of
                   (Inr r, s') \<Rightarrow> (Inr r, s')
                 | (Inl e, s') \<Rightarrow> clone_catch e s')))"

subsection \<open>detect and detectMultiple\<close>

definition detect ::
  "env \<Rightarrow> target \<Rightarrow> string option \<Rightarrow> dom_state \<Rightarrow> (exn + result) \<times> dom_state" where
  "detect env tgt text s =
     (if truthy text then detectByClone env tgt text s
      else (case detectByRange env tgt s of
              (Inl e, s') \<Rightarrow> (Inl e, s')
            | (Inr rangeResult, s') \<Rightarrow>
                if truthy (error rangeResult) then detectByClone env tgt None s'
                else (Inr rangeResult, s')))"


subsection \<open>observe\<close>

text \<open>
  A subscription lives in an event loop with a virtual clock (\<open>now\<close> of the document).
  \<open>timers\<close> is the queue of pending timeouts, each with its identifier and the time it is
  due; \<open>timeoutId\<close> is the variable of that name captured by \<open>debouncedCallback\<close>;
  \<open>observing\<close> tells whether the returned MutationObserver is connected. The caller's
  callback is recorded in \<open>calls\<close> with the time of the invocation.
\<close>

record options =
  opt_immediate :: "bool option"
  opt_debounce :: "nat option"

record world =
  page :: dom_state
  timers :: "(nat \<times> nat) list"
  nextTimer :: nat
  timeoutId :: "nat option"
  observing :: bool
  sub_element :: node
  sub_debounce :: nat
  calls :: "(nat \<times> result) list"

definition clearTimeout :: "nat option \<Rightarrow> world \<Rightarrow> world" where
  "clearTimeout i w =
     (case i of None \<Rightarrow> w
      | Some k \<Rightarrow> w\<lparr>timers := filter (\<lambda>tm. fst tm \<noteq> k) (timers w)\<rparr>)"

definition setTimeout :: "nat \<Rightarrow> world \<Rightarrow> nat \<times> world" where
  "setTimeout delay w =
     (nextTimer w,
      w\<lparr>timers := timers w @ [(nextTimer w, now (page w) + delay)],
        nextTimer := Suc (nextTimer w)\<rparr>)"

definition debouncedCallback :: "world \<Rightarrow> world" where
  "debouncedCallback w =
     (let w1 = clearTimeout (timeoutId w) w;
          (i, w2) = setTimeout (sub_debounce w1) w1
      in w2\<lparr>timeoutId := Some i\<rparr>)"

definition observe :: "env \<Rightarrow> target \<Rightarrow> options \<Rightarrow> dom_state \<Rightarrow> exn + world" where
  "observe env tgt opts d =
     (case getElement env tgt of
        None \<Rightarrow> Inl (Error ''Element not found'')
      | Some element \<Rightarrow>
          (let immediate = (case opt_immediate opts of None \<Rightarrow> True | Some b \<Rightarrow> b);
               debounce = (case opt_debounce opts of None \<Rightarrow> 100 | Some n \<Rightarrow> n);
               w0 = \<lparr>page = d, timers = [], nextTimer = 0, timeoutId = None,
                     observing = False, sub_element = element, sub_debounce = debounce,
                     calls = []\<rparr>;
               w1 = (if immediate then debouncedCallback w0 else w0)
           in Inr (w1\<lparr>observing := True\<rparr>)))"

text \<open>The body of the timeout: detect, then the caller's callback, at the time it is due.\<close>

definition fire :: "env \<Rightarrow> nat \<times> nat \<Rightarrow> world \<Rightarrow> world" where
  "fire env tm w =
     (case detect env (Element (sub_element w)) None ((page w)\<lparr>now := snd tm\<rparr>) of
        (Inl e, d') \<Rightarrow> w\<lparr>page := d'\<rparr>
      | (Inr r, d') \<Rightarrow> w\<lparr>page := d', calls := calls w @ [(snd tm, r)]\<rparr>)"

text \<open>Letting \<open>d\<close> milliseconds pass runs every timeout that becomes due, earliest first.\<close>

definition advance :: "env \<Rightarrow> nat \<Rightarrow> world \<Rightarrow> world" where
  "advance env d w =
     (let t = now (page w) + d;
          due = sort_key snd (filter (\<lambda>tm. snd tm \<le> t) (timers w));
          w1 = fold (fire env) due (w\<lparr>timers := filter (\<lambda>tm. \<not> snd tm \<le> t) (timers w)\<rparr>)
      in w1\<lparr>page := (page w1)\<lparr>now := t\<rparr>\<rparr>)"

text \<open>A mutation batch reaches \<open>debouncedCallback\<close> only while the observer is connected.\<close>

definition mutation :: "world \<Rightarrow> world" where
  "mutation w = (if observing w then debouncedCallback w else w)"

definition disconnect :: "world \<Rightarrow> world" where
  "disconnect w = w\<lparr>observing := False\<rparr>"

datatype event = Mutation | Wait nat | Disconnect

fun step :: "env \<Rightarrow> event \<Rightarrow> world \<Rightarrow> world" where
  "step env Mutation w = mutation w"
| "step env (Wait d) w = advance env d w"
| "step env Disconnect w = disconnect w"

definition run :: "env \<Rightarrow> event list \<Rightarrow> world \<Rightarrow> world" where
  "run env evs w = fold (step env) evs w"

text \<open>A burst: one mutation, then one more after each of the given gaps.\<close>

definition burst :: "nat list \<Rightarrow> event list" where
  "burst gaps = Mutation # concat (map (\<lambda>g. [Wait g, Mutation]) gaps)"

definition waited :: "event list \<Rightarrow> nat" where
  "waited evs = sum_list (map (\<lambda>ev. case ev of Wait d \<Rightarrow> d | _ \<Rightarrow> 0) evs)"

section \<open>ScrollbarWidthDetector\<close>

text \<open>
  The class keeps one static field, \<open>_cachedWidth\<close> (\<open>null\<close> or a number), and measures in
  the same document: the widths of the two probe elements come from the layout oracle.
\<close>

record sb_state =
  cachedWidth :: "real option"
  doc :: dom_state

definition div_rec :: node_rec where
  "div_rec = \<lparr>tagName = ''div'', cssText = [], style = Map.empty, textContent = [],
              childNodes = 0\<rparr>"

definition setContainerStyles :: "node \<Rightarrow> (string \<times> string) list \<Rightarrow> dom_state \<Rightarrow> dom_state" where
  "setContainerStyles n styles s = fold (\<lambda>(prop, v). setStyle n prop v) styles s"

text \<open>\<open>outer.appendChild(inner)\<close>: the probe gets its one child.\<close>

definition appendInto :: "node \<Rightarrow> node \<Rightarrow> dom_state \<Rightarrow> dom_state" where
  "appendInto parent child s =
     s\<lparr>nodes := (nodes s)(parent := (nodes s parent)\<lparr>childNodes := Suc (childNodes (nodes s parent))\<rparr>)\<rparr>"

definition measure_try :: "env \<Rightarrow> node \<Rightarrow> dom_state \<Rightarrow> (exn + real) \<times> dom_state" where
  "measure_try env outer s =
     (case offsetWidth env outer of
        Inl e \<Rightarrow> (Inl e, s)
      | Inr widthWithoutScrollbar \<Rightarrow>
          (let s1 = setStyle outer ''overflow'' ''scroll'' s;
               (inner, s2) = alloc div_rec s1;
               s3 = setContainerStyles inner [(''width'', ''100%''), (''height'', ''100%'')] s2;
               s4 = appendInto outer inner s3
           in case offsetWidth env inner of
                Inl e \<Rightarrow> (Inl e, s4)
              | Inr widthWithScrollbar \<Rightarrow>
                  (Inr (Math_max 0 (widthWithoutScrollbar - widthWithScrollbar)), s4)))"

text \<open>\<open>try ... finally\<close>: the probe is removed on both exits, an exception goes on.\<close>

definition measureScrollbarWidth :: "env \<Rightarrow> dom_state \<Rightarrow> (exn + real) \<times> dom_state" where
  "measureScrollbarWidth env s =
     (let (outer, s1) = alloc div_rec s;
          s2 = setContainerStyles outer
                 [(''visibility'', ''hidden''), (''width'', ''100px''), (''height'', ''100px''),
                  (''position'', ''absolute''), (''top'', ''-9999px''), (''left'', ''-9999px''),
                  (''overflow'', ''hidden''), (''msOverflowStyle'', ''scrollbar'')] s1;
          s3 = appendChild outer s2;
          (res, s4) = measure_try env outer s3
      in (res, removeChild outer s4))"

definition getWidth :: "env \<Rightarrow> bool \<Rightarrow> sb_state \<Rightarrow> (exn + real) \<times> sb_state" where
  "getWidth env useCache st =
     (if useCache \<and> cachedWidth st \<noteq> None then (Inr (the (cachedWidth st)), st)
      else (case measureScrollbarWidth env (doc st) of
              (Inl e, d') \<Rightarrow> (Inl e, st\<lparr>doc := d'\<rparr>)
            | (Inr width, d') \<Rightarrow>
                (Inr width,
                 if useCache then st\<lparr>cachedWidth := Some width, doc := d'\<rparr>
                 else st\<lparr>doc := d'\<rparr>)))"

definition clearCache :: "sb_state \<Rightarrow> sb_state" where
  "clearCache st = st\<lparr>cachedWidth := None\<rparr>"

text \<open>Any number of further \<open>getWidth\<close> calls, with the given flags, whatever they return.\<close>

definition getWidth_calls :: "env \<Rightarrow> bool list \<Rightarrow> sb_state \<Rightarrow> sb_state" where
  "getWidth_calls env flags st = fold (\<lambda>b s. snd (getWidth env b s)) flags st"

section \<open>Notions used in the statements\<close>

text \<open>
  The static template, once created, is a detached span that still carries the style text
  it was created with.
\<close>

definition template_ok :: "dom_state \<Rightarrow> bool" where
  "template_ok s = (case measureElement s of None \<Rightarrow> True
                    | Some m \<Rightarrow> m < nextNode s \<and> nodes s m = template_rec)"

text \<open>What a scratch node holds when it is measured: the template with the copied
  properties and the text under test.\<close>

definition scratch_rec :: "(string \<Rightarrow> string) \<Rightarrow> string \<Rightarrow> node_rec" where
  "scratch_rec cs txt =
     template_rec\<lparr>style := fold (\<lambda>p st. st(p \<mapsto> cs p)) textStyleProps Map.empty,
                  textContent := txt, childNodes := (if txt = [] then 0 else 1)\<rparr>"

text \<open>The document at the moment the scratch node has been appended to the body.\<close>

definition attached :: "(string \<Rightarrow> string) \<Rightarrow> string \<Rightarrow> dom_state \<Rightarrow> dom_state" where
  "attached cs txt s =
     (let m = fst (getMeasureElement s) in
      appendChild m (setTextContent m txt
        (fold (\<lambda>prop. setStyle m prop (cs prop)) textStyleProps (snd (getMeasureElement s)))))"

text \<open>
  The available width: the element's \<open>offsetWidth\<close> minus its left and right padding.
  \<open>overflow_rule r tw aw\<close> is the overflow decision a result \<open>r\<close> has to show for a text
  width \<open>tw\<close> and an available width \<open>aw\<close>.
\<close>

definition availableWidth_of :: "env \<Rightarrow> (string \<Rightarrow> string) \<Rightarrow> real \<Rightarrow> real" where
  "availableWidth_of env cs cw =
     cw - or_zero (parseFloat env (cs ''paddingLeft''))
        - or_zero (parseFloat env (cs ''paddingRight''))"


text \<open>An error result: not overflowing, with a non-empty error description.\<close>

definition error_result :: "result \<Rightarrow> bool" where
  "error_result r = (\<not> isOverflowing r \<and> (\<exists>m. error r = Some m \<and> m \<noteq> []))"

text \<open>
  The debounce of \<open>observe\<close> as a timer-reset machine: idle (nothing pending) or pending
  with the time the callback is due; \<open>m_fired\<close> lists the times at which the callback was
  invoked. A mutation seen while observing (re)starts the timer, the passing of time fires
  it when due, cancelling stops the observing and nothing else.
\<close>

record debounce_state =
  m_pending :: "nat option"
  m_now :: nat
  m_observing :: bool
  m_fired :: "nat list"

fun debounce_step :: "nat \<Rightarrow> event \<Rightarrow> debounce_state \<Rightarrow> debounce_state" where
  "debounce_step D Mutation st =
     (if m_observing st then st\<lparr>m_pending := Some (m_now st + D)\<rparr> else st)"
| "debounce_step D (Wait d) st =
     (case m_pending st of
        None \<Rightarrow> st\<lparr>m_now := m_now st + d\<rparr>
      | Some t \<Rightarrow>
          if t \<le> m_now st + d
          then st\<lparr>m_pending := None, m_now := m_now st + d, m_fired := m_fired st @ [t]\<rparr>
          else st\<lparr>m_now := m_now st + d\<rparr>)"
| "debounce_step D Disconnect st = st\<lparr>m_observing := False\<rparr>"

definition debounce_run :: "nat \<Rightarrow> event list \<Rightarrow> debounce_state \<Rightarrow> debounce_state" where
  "debounce_run D evs st = fold (debounce_step D) evs st"

text \<open>Whether time passes at all in a list of events.\<close>

definition has_wait :: "event list \<Rightarrow> bool" where
  "has_wait evs = list_ex (\<lambda>ev. case ev of Wait d \<Rightarrow> True | _ \<Rightarrow> False) evs"

text \<open>
  The machine state of a subscription, and the invariant that links them: at most one
  timeout is queued, the one \<open>timeoutId\<close> names.
\<close>

definition pending :: "world \<Rightarrow> nat option" where
  "pending w = (case timers w of [] \<Rightarrow> None | tm # _ \<Rightarrow> Some (snd tm))"

definition abstraction :: "world \<Rightarrow> debounce_state" where
  "abstraction w =
     \<lparr>m_pending = pending w, m_now = now (page w), m_observing = observing w,
      m_fired = map fst (calls w)\<rparr>"

definition single_timer :: "world \<Rightarrow> bool" where
  "single_timer w =
     (case timers w of
        [] \<Rightarrow> True
      | tm # rest \<Rightarrow> rest = [] \<and> timeoutId w = Some (fst tm))"

section \<open>A sample document\<close>

text \<open>
  One \<open>div\<close> (node 0) holding a line of text, 100 pixels wide with 5 pixels of padding on
  each side; a scratch node is 7 pixels wide per character. \<open>sample_env\<close> answers every
  query; in \<open>throwing_env\<close> the element's \<open>offsetWidth\<close> getter throws.
\<close>

definition sample_dom :: dom_state where
  "sample_dom =
     \<lparr>nodes = (\<lambda>n. \<lparr>tagName = ''div'', cssText = [], style = Map.empty,
                     textContent = ''Hello, world'', childNodes = 1\<rparr>),
      nextNode = 1, bodyChildren = [0], measureElement = None, now = 0\<rparr>"

definition sample_env :: env where
  "sample_env =
     \<lparr>querySelector = (\<lambda>sel. if sel = ''.my-text'' then Some 0 else None),
      innerText = (\<lambda>n. ''Hello, world''),
      rangeWidth = (\<lambda>n. Inr 140),
      offsetWidth = (\<lambda>n. if n = 0 then Inr 100 else if n = 1 then Inr 100 else Inr 85),
      scratchWidth = (\<lambda>r. Inr (7 * real (length (textContent r)))),
      getComputedStyle = (\<lambda>n. Inr (\<lambda>prop. if prop = ''paddingLeft'' \<or> prop = ''paddingRight''
                                              then ''5px'' else ''normal'')),
      parseFloat = (\<lambda>v. if v = ''5px'' then Some 5 else None)\<rparr>"

definition throwing_env :: env where
  "throwing_env = sample_env\<lparr>offsetWidth := (\<lambda>n. Inl (Error ''boom''))\<rparr>"

text \<open>The subscription \<open>observe\<close> returns for that element with the default options.\<close>

definition sample_world :: world where
  "sample_world =
     \<lparr>page = sample_dom, timers = [(0, 100)], nextTimer = 1, timeoutId = Some 0,
      observing = True, sub_element = 0, sub_debounce = 100, calls = []\<rparr>"

text \<open>The scrollbar detector before its first measurement.\<close>

definition sample_sb :: sb_state where
  "sample_sb = \<lparr>cachedWidth = None, doc = sample_dom\<rparr>"

section \<open>Effects of the document operations\<close>

lemma alloc_fields [simp]:
  "fst (alloc r s) = nextNode s"
  "nextNode (snd (alloc r s)) = Suc (nextNode s)"
  "bodyChildren (snd (alloc r s)) = bodyChildren s"
  "measureElement (snd (alloc r s)) = measureElement s"
  "now (snd (alloc r s)) = now s"
  "nodes (snd (alloc r s)) = (nodes s)(nextNode s := r)"
  by (simp_all add: alloc_def)

lemma cloneNode_fields [simp]:
  "fst (cloneNode n s) = nextNode s"
  "nextNode (snd (cloneNode n s)) = Suc (nextNode s)"
  "bodyChildren (snd (cloneNode n s)) = bodyChildren s"
  "measureElement (snd (cloneNode n s)) = measureElement s"
  "now (snd (cloneNode n s)) = now s"
  "nodes (snd (cloneNode n s)) = (nodes s)(nextNode s := (nodes s n)\<lparr>textContent := [], childNodes := 0\<rparr>)"
  by (simp_all add: cloneNode_def)

lemma setStyle_fields [simp]:
  "nextNode (setStyle n p v s) = nextNode s"
  "bodyChildren (setStyle n p v s) = bodyChildren s"
  "measureElement (setStyle n p v s) = measureElement s"
  "now (setStyle n p v s) = now s"
  "nodes (setStyle n p v s) = (nodes s)(n := (nodes s n)\<lparr>style := (style (nodes s n))(p \<mapsto> v)\<rparr>)"
  by (simp_all add: setStyle_def)

lemma fold_setStyle_fields [simp]:
  "nextNode (fold (\<lambda>p. setStyle n p (f p)) ps s) = nextNode s"
  "bodyChildren (fold (\<lambda>p. setStyle n p (f p)) ps s) = bodyChildren s"
  "measureElement (fold (\<lambda>p. setStyle n p (f p)) ps s) = measureElement s"
  "now (fold (\<lambda>p. setStyle n p (f p)) ps s) = now s"
  by (induction ps arbitrary: s; simp)+

lemma fold_setStyle_nodes:
  "nodes (fold (\<lambda>p. setStyle n p (f p)) ps s) =
     (nodes s)(n := (nodes s n)\<lparr>style := fold (\<lambda>p st. st(p \<mapsto> f p)) ps (style (nodes s n))\<rparr>)"
  by (induction ps arbitrary: s) (simp_all add: fun_eq_iff)

lemma setTextContent_fields [simp]:
  "nextNode (setTextContent n t s) = nextNode s"
  "bodyChildren (setTextContent n t s) = bodyChildren s"
  "measureElement (setTextContent n t s) = measureElement s"
  "now (setTextContent n t s) = now s"
  "nodes (setTextContent n t s) =
     (nodes s)(n := (nodes s n)\<lparr>textContent := t, childNodes := (if t = [] then 0 else 1)\<rparr>)"
  by (simp_all add: setTextContent_def)

lemma appendChild_fields [simp]:
  "nextNode (appendChild n s) = nextNode s"
  "bodyChildren (appendChild n s) = removeAll n (bodyChildren s) @ [n]"
  "measureElement (appendChild n s) = measureElement s"
  "now (appendChild n s) = now s"
  "nodes (appendChild n s) = nodes s"
  by (simp_all add: appendChild_def)

lemma removeChild_fields [simp]:
  "nextNode (removeChild n s) = nextNode s"
  "bodyChildren (removeChild n s) = removeAll n (bodyChildren s)"
  "measureElement (removeChild n s) = measureElement s"
  "now (removeChild n s) = now s"
  "nodes (removeChild n s) = nodes s"
  by (simp_all add: removeChild_def)

lemma getMeasureElement_fields:
  "nextNode s \<le> fst (getMeasureElement s)"
  "fst (getMeasureElement s) < nextNode (snd (getMeasureElement s))"
  "nextNode (snd (getMeasureElement s)) = Suc (fst (getMeasureElement s))"
  "bodyChildren (snd (getMeasureElement s)) = bodyChildren s"
  "now (snd (getMeasureElement s)) = now s"
  "n < nextNode s \<Longrightarrow> nodes (snd (getMeasureElement s)) n = nodes s n"
  by (simp_all add: getMeasureElement_def Let_def split_beta split: option.splits)

lemma getMeasureElement_clone:
  "template_ok s \<Longrightarrow>
   nodes (snd (getMeasureElement s)) (fst (getMeasureElement s)) = template_rec"
  by (simp add: getMeasureElement_def template_ok_def Let_def split_beta template_rec_def
           split: option.splits)

lemma getMeasureElement_template_ok:
  "template_ok s \<Longrightarrow> template_ok (snd (getMeasureElement s))"
  by (auto simp add: getMeasureElement_def template_ok_def Let_def split_beta
           split: option.splits)

lemma getMeasureElement_measureElement:
  "template_ok s \<Longrightarrow> measureElement (snd (getMeasureElement s)) = Some t \<Longrightarrow>
     t < fst (getMeasureElement s)"
  by (auto simp add: getMeasureElement_def template_ok_def Let_def split_beta
           split: option.splits)

lemma range_try_state: "snd (range_try env e s) = s"
  by (simp add: range_try_def Let_def split: sum.splits)

lemma detectByRange_state: "snd (detectByRange env t s) = s"
proof (cases "getElement env t")
  case None
  then show ?thesis by (simp add: detectByRange_def)
next
  case (Some e)
  obtain res s' where rt: "range_try env e s = (res, s')"
    by (cases "range_try env e s")
  then have "s' = s" using range_try_state [of env e s] by simp
  with Some rt show ?thesis
    by (simp add: detectByRange_def split: sum.splits exn.splits)
qed

lemma detectByRange_returns: "\<exists>r. fst (detectByRange env t s) = Inr r"
  by (simp add: detectByRange_def split: option.splits prod.splits sum.splits exn.splits)

lemma clone_catch_returns: "\<exists>r. fst (clone_catch e s) = Inr r"
  by (cases e) (simp add: clone_catch_def Let_def)

lemma detectByClone_returns: "\<exists>r. fst (detectByClone env t text s) = Inr r"
  using clone_catch_returns
  by (simp add: detectByClone_def Let_def split: option.splits prod.splits sum.splits)

lemma detect_returns: "\<exists>r. fst (detect env t text s) = Inr r"
  using detectByClone_returns [of env t] detectByRange_returns [of env t s]
  by (auto simp add: detect_def split: prod.splits sum.splits)

lemma clone_try_snd:
  "snd (clone_try env e txt s) =
     (case getComputedStyle env e of
        Inl ex \<Rightarrow> snd (getMeasureElement s)
      | Inr cs \<Rightarrow>
          (case fst (clone_try env e txt s) of
             Inl ex \<Rightarrow> attached cs txt s
           | Inr r \<Rightarrow> removeChild (fst (getMeasureElement s)) (attached cs txt s)))"
  by (simp add: clone_try_def copyTextStyles_def attached_def Let_def split_beta
        split: sum.splits)

lemma attached_fields:
  "nextNode (attached cs txt s) = Suc (fst (getMeasureElement s))"
  "bodyChildren (attached cs txt s) =
     removeAll (fst (getMeasureElement s)) (bodyChildren s) @ [fst (getMeasureElement s)]"
  "now (attached cs txt s) = now s"
  "measureElement (attached cs txt s) = measureElement (snd (getMeasureElement s))"
  "n \<noteq> fst (getMeasureElement s) \<Longrightarrow>
     nodes (attached cs txt s) n = nodes (snd (getMeasureElement s)) n"
  by (simp_all add: attached_def Let_def getMeasureElement_fields fold_setStyle_nodes)

lemma attached_scratch:
  "template_ok s \<Longrightarrow>
   nodes (attached cs txt s) (fst (getMeasureElement s)) = scratch_rec cs txt"
  by (simp add: attached_def Let_def fold_setStyle_nodes getMeasureElement_clone
        scratch_rec_def) (simp add: template_rec_def)

lemma clone_catch_fields:
  "nextNode (snd (clone_catch ex s)) = nextNode s"
  "now (snd (clone_catch ex s)) = now s"
  "nodes (snd (clone_catch ex s)) = nodes s"
  "measureElement (snd (clone_catch ex s)) = measureElement s"
  by (cases ex; simp add: clone_catch_def Let_def split: option.splits)+

lemma clone_catch_body:
  "\<forall>t. measureElement s = Some t \<longrightarrow> t \<notin> set (bodyChildren s) \<Longrightarrow>
     bodyChildren (snd (clone_catch ex s)) = bodyChildren s"
  by (cases ex) (simp add: clone_catch_def Let_def hasParent_def split: option.splits)

lemma clone_try_fields:
  "now (snd (clone_try env e txt s)) = now s"
  "nextNode s \<le> nextNode (snd (clone_try env e txt s))"
  "n < nextNode s \<Longrightarrow> nodes (snd (clone_try env e txt s)) n = nodes s n"
proof -
  have le: "nextNode s \<le> fst (getMeasureElement s)"
    by (rule getMeasureElement_fields(1))
  show "now (snd (clone_try env e txt s)) = now s"
    by (simp add: clone_try_snd attached_fields getMeasureElement_fields split: sum.splits)
  have le': "nextNode s \<le> Suc (fst (getMeasureElement s))"
    using le by simp
  show "nextNode s \<le> nextNode (snd (clone_try env e txt s))"
    by (simp add: clone_try_snd attached_fields getMeasureElement_fields(3) le le'
          split: sum.splits)
  show "nodes (snd (clone_try env e txt s)) n = nodes s n" if lt: "n < nextNode s"
  proof -
    from lt le have ne: "n \<noteq> fst (getMeasureElement s)" by simp
    from lt ne show ?thesis
      by (simp add: clone_try_snd attached_fields getMeasureElement_fields(6)
            split: sum.splits)
  qed
qed

lemma attached_template_ok:
  assumes "template_ok s"
  shows "template_ok (attached cs txt s)"
proof -
  let ?g = "getMeasureElement s"
  have ok: "template_ok (snd ?g)" using assms by (rule getMeasureElement_template_ok)
  show ?thesis
  proof (cases "measureElement (snd ?g)")
    case None
    then show ?thesis by (simp add: template_ok_def attached_fields)
  next
    case (Some t)
    then have lt: "t < fst ?g" using assms getMeasureElement_measureElement by blast
    from ok Some have "nodes (snd ?g) t = template_rec" by (simp add: template_ok_def)
    with lt Some show ?thesis by (simp add: template_ok_def attached_fields)
  qed
qed

lemma removeChild_template_ok: "template_ok (removeChild n s) = template_ok s"
  by (simp add: template_ok_def split: option.splits)

lemma clone_try_template_ok:
  "template_ok s \<Longrightarrow> template_ok (snd (clone_try env e txt s))"
  by (simp add: clone_try_snd attached_template_ok getMeasureElement_template_ok
        removeChild_template_ok split: sum.splits)

lemma clone_catch_template_ok: "template_ok (snd (clone_catch ex s)) = template_ok s"
  by (simp add: template_ok_def clone_catch_fields split: option.splits)

lemma detectByClone_snd:
  "snd (detectByClone env t text s) =
     (case getElement env t of
        None \<Rightarrow> s
      | Some e \<Rightarrow>
          if trim (testTextOf env s e text) = [] then s
          else (case fst (clone_try env e (testTextOf env s e text) s) of
                  Inr r \<Rightarrow> snd (clone_try env e (testTextOf env s e text) s)
                | Inl ex \<Rightarrow> snd (clone_catch ex (snd (clone_try env e (testTextOf env s e text) s)))))"
  by (simp add: detectByClone_def Let_def split: option.splits prod.splits sum.splits)

lemma detectByClone_fields:
  "now (snd (detectByClone env t text s)) = now s"
  "nextNode s \<le> nextNode (snd (detectByClone env t text s))"
  "n < nextNode s \<Longrightarrow> nodes (snd (detectByClone env t text s)) n = nodes s n"
  "template_ok s \<Longrightarrow> template_ok (snd (detectByClone env t text s))"
  by (simp_all add: detectByClone_snd clone_catch_fields clone_try_fields
        clone_catch_template_ok clone_try_template_ok split: option.splits sum.splits)

lemma detect_snd:
  "snd (detect env t text s) =
     (if truthy text then snd (detectByClone env t text s)
      else (case fst (detectByRange env t s) of
              Inl e \<Rightarrow> s
            | Inr r \<Rightarrow> if truthy (error r) then snd (detectByClone env t None s) else s))"
  using detectByRange_state [of env t s]
  by (auto simp add: detect_def split: prod.splits sum.splits)

lemma detect_fields:
  "now (snd (detect env t text s)) = now s"
  "nextNode s \<le> nextNode (snd (detect env t text s))"
  "n < nextNode s \<Longrightarrow> nodes (snd (detect env t text s)) n = nodes s n"
  "template_ok s \<Longrightarrow> template_ok (snd (detect env t text s))"
  by (simp_all add: detect_snd detectByClone_fields split: sum.splits)

subsection \<open>The scrollbar measurement\<close>

lemma fold_pairs_setStyle_fields [simp]:
  "nextNode (setContainerStyles n styles s) = nextNode s"
  "bodyChildren (setContainerStyles n styles s) = bodyChildren s"
  unfolding setContainerStyles_def
  by (induction styles arbitrary: s; simp add: split_beta)+

lemma appendInto_fields [simp]:
  "nextNode (appendInto p c s) = nextNode s"
  "bodyChildren (appendInto p c s) = bodyChildren s"
  by (simp_all add: appendInto_def)

lemma measure_try_fst:
  "fst (measure_try env outer s) =
     (case offsetWidth env outer of
        Inl e \<Rightarrow> Inl e
      | Inr a \<Rightarrow> (case offsetWidth env (nextNode s) of
                    Inl e \<Rightarrow> Inl e
                  | Inr b \<Rightarrow> Inr (Math_max 0 (a - b))))"
  by (simp add: measure_try_def Let_def split_beta split: sum.splits)

lemma measure_try_nextNode: "nextNode s \<le> nextNode (snd (measure_try env outer s))"
  by (simp add: measure_try_def Let_def split_beta split: sum.splits)

lemma measure_try_body: "bodyChildren (snd (measure_try env outer s)) = bodyChildren s"
  by (simp add: measure_try_def Let_def split_beta split: sum.splits)

lemma measureScrollbarWidth_fst:
  "fst (measureScrollbarWidth env s) =
     (case offsetWidth env (nextNode s) of
        Inl e \<Rightarrow> Inl e
      | Inr a \<Rightarrow> (case offsetWidth env (Suc (nextNode s)) of
                    Inl e \<Rightarrow> Inl e
                  | Inr b \<Rightarrow> Inr (Math_max 0 (a - b))))"
  by (simp add: measureScrollbarWidth_def Let_def split_beta measure_try_fst
        split: sum.splits)

lemma measureScrollbarWidth_nonneg:
  "fst (measureScrollbarWidth env s) = Inr w \<Longrightarrow> 0 \<le> w"
  by (auto simp add: measureScrollbarWidth_fst Math_max_def split: sum.splits if_splits)

lemma measureScrollbarWidth_allocates:
  "nextNode s < nextNode (snd (measureScrollbarWidth env s))"
  using measure_try_nextNode [of "appendChild (nextNode s) (setContainerStyles (nextNode s) sty (snd (alloc div_rec s)))" env "nextNode s" for sty]
  by (simp add: measureScrollbarWidth_def Let_def split_beta less_eq_Suc_le)

lemma measureScrollbarWidth_detaches:
  "\<forall>n\<in>set (bodyChildren s). n < nextNode s \<Longrightarrow>
     bodyChildren (snd (measureScrollbarWidth env s)) = bodyChildren s"
  by (auto simp add: measureScrollbarWidth_def Let_def split_beta measure_try_body)

lemma getWidth_cached:
  "cachedWidth st = Some w \<Longrightarrow> getWidth env True st = (Inr w, st)"
  by (simp add: getWidth_def)

lemma getWidth_keeps_cache:
  "cachedWidth st = Some w \<Longrightarrow> cachedWidth (snd (getWidth env b st)) = Some w"
  by (cases b) (simp_all add: getWidth_def split: prod.splits sum.splits)

lemma getWidth_calls_keep_cache:
  "cachedWidth st = Some w \<Longrightarrow> cachedWidth (getWidth_calls env flags st) = Some w"
  unfolding getWidth_calls_def
  by (induction flags arbitrary: st) (simp_all add: getWidth_keeps_cache)

lemma getWidth_uncached:
  "getWidth env False st =
     (fst (measureScrollbarWidth env (doc st)), st\<lparr>doc := snd (measureScrollbarWidth env (doc st))\<rparr>)"
  by (simp add: getWidth_def split: prod.splits sum.splits)

lemma getWidth_first:
  "cachedWidth st = None \<Longrightarrow> getWidth env True st = (Inr w, st') \<Longrightarrow>
     fst (measureScrollbarWidth env (doc st)) = Inr w \<and> cachedWidth st' = Some w"
  by (auto simp add: getWidth_def split: prod.splits sum.splits)

lemma getWidth_first_fst:
  "cachedWidth st = None \<Longrightarrow>
     fst (getWidth env True st) = fst (measureScrollbarWidth env (doc st))"
  by (auto simp add: getWidth_def split: prod.splits sum.splits)

lemma clearCache_fields [simp]:
  "cachedWidth (clearCache st) = None"
  "doc (clearCache st) = doc st"
  by (simp_all add: clearCache_def)

lemma getWidth_after_clear:
  "fst (getWidth env True (clearCache st)) = fst (measureScrollbarWidth env (doc st))"
  by (simp add: getWidth_first_fst)

subsection \<open>What the two strategies return\<close>

lemma createResult_fields [simp]:
  "isOverflowing (createResult s ov err d) = ov"
  "error (createResult s ov err d) = err"
  "textWidth (createResult s ov err d) = d_textWidth d"
  "containerWidth (createResult s ov err d) = d_containerWidth d"
  "availableWidth (createResult s ov err d) = d_availableWidth d"
  "overflowAmount (createResult s ov err d) = d_overflowAmount d"
  "textLength (createResult s ov err d) = d_textLength d"
  "timestamp (createResult s ov err d) = now s"
  by (simp_all add: createResult_def)

lemma createResult_now: "now s' = now s \<Longrightarrow> createResult s' = createResult s"
  by (simp add: createResult_def fun_eq_iff)



lemma Math_max_nonneg: "0 \<le> Math_max 0 x"
  by (simp add: Math_max_def)

lemma range_try_fst:
  "fst (range_try env e s) =
     (case rangeWidth env e of
        Inl ex \<Rightarrow> Inl ex
      | Inr tw \<Rightarrow>
     (case offsetWidth env e of
        Inl ex \<Rightarrow> Inl ex
      | Inr cw \<Rightarrow>
     (case getComputedStyle env e of
        Inl ex \<Rightarrow> Inl ex
      | Inr cs \<Rightarrow>
          Inr (createResult s (tw > availableWidth_of env cs cw) None
                 \<lparr>d_textWidth = Some (Math_round tw), d_containerWidth = Some cw,
                  d_availableWidth = Some (Math_round (availableWidth_of env cs cw)),
                  d_overflowAmount = Some (Math_round (Math_max 0 (tw - availableWidth_of env cs cw))),
                  d_textLength = None\<rparr>))))"
  by (simp add: range_try_def availableWidth_of_def Let_def split: sum.splits)

lemma detectByRange_fst:
  "fst (detectByRange env t s) =
     (case getElement env t of
        None \<Rightarrow> Inr (createResult s False (Some ''Element not found'') no_details)
      | Some e \<Rightarrow>
          if childNodes (nodes s e) = 0
          then Inr (createResult s False (Some ''No text content'') no_details)
          else (case fst (range_try env e s) of
                  Inr r \<Rightarrow> Inr r
                | Inl (Error msg) \<Rightarrow>
                    Inr (createResult s False (Some (''Range detection failed: '' @ msg))
                           no_details)))"
proof (cases "getElement env t")
  case None
  then show ?thesis by (simp add: detectByRange_def)
next
  case (Some e)
  obtain res where rt: "range_try env e s = (res, s)"
    using range_try_state [of env e s] by (cases "range_try env e s") simp
  show ?thesis
    using Some by (simp add: detectByRange_def rt split: sum.splits exn.splits)
qed

lemma clone_try_fst:
  "fst (clone_try env e txt s) =
     (case getComputedStyle env e of
        Inl ex \<Rightarrow> Inl ex
      | Inr cs \<Rightarrow>
     (case scratchWidth env (nodes (attached cs txt s) (fst (getMeasureElement s))) of
        Inl ex \<Rightarrow> Inl ex
      | Inr tw \<Rightarrow>
     (case offsetWidth env e of
        Inl ex \<Rightarrow> Inl ex
      | Inr cw \<Rightarrow>
          Inr (createResult s (tw > availableWidth_of env cs cw) None
                 \<lparr>d_textWidth = Some tw, d_containerWidth = Some cw,
                  d_availableWidth = Some (Math_round (availableWidth_of env cs cw)),
                  d_overflowAmount = Some (Math_round (Math_max 0 (tw - availableWidth_of env cs cw))),
                  d_textLength = Some (length txt)\<rparr>))))"
  by (simp add: clone_try_def copyTextStyles_def availableWidth_of_def Let_def split_beta
        attached_def createResult_def getMeasureElement_fields(5) split: sum.splits)

lemma clone_catch_fst:
  "fst (clone_catch (Error msg) s) =
     Inr (createResult s False (Some (''Clone detection failed: '' @ msg)) no_details)"
proof -
  have "createResult (snd (clone_catch (Error msg) s)) = createResult s"
    by (rule createResult_now) (simp add: clone_catch_fields)
  then show ?thesis
    by (simp add: clone_catch_def Let_def split: option.splits)
qed

lemma detectByClone_fst:
  "fst (detectByClone env t text s) =
     (case getElement env t of
        None \<Rightarrow> Inr (createResult s False (Some ''Element not found'') no_details)
      | Some e \<Rightarrow>
          if trim (testTextOf env s e text) = []
          then Inr (createResult s False (Some ''No text content'') no_details)
          else (case fst (clone_try env e (testTextOf env s e text) s) of
                  Inr r \<Rightarrow> Inr r
                | Inl (Error msg) \<Rightarrow>
                    Inr (createResult s False (Some (''Clone detection failed: '' @ msg))
                           no_details)))"
proof -
  have c: "createResult (snd (clone_try env e tx s)) = createResult s" for e tx
    by (rule createResult_now) (simp add: clone_try_fields)
  show ?thesis
  proof (cases "getElement env t")
    case None
    then show ?thesis by (simp add: detectByClone_def)
  next
    case (Some e)
    obtain res s1 where ct: "clone_try env e (testTextOf env s e text) s = (res, s1)"
      by (cases "clone_try env e (testTextOf env s e text) s")
    have "createResult s1 = createResult s"
      using c [of e "testTextOf env s e text"] ct by simp
    then show ?thesis
      using Some
      by (simp add: detectByClone_def Let_def ct clone_catch_fst
            split: sum.splits exn.splits)
  qed
qed


lemma no_details_fields [simp]:
  "d_textWidth no_details = None" "d_containerWidth no_details = None"
  "d_availableWidth no_details = None" "d_overflowAmount no_details = None"
  "d_textLength no_details = None"
  by (simp_all add: no_details_def)

lemma detectByRange_shape:
  assumes "fst (detectByRange env t s) = Inr r"
  shows "(error r = None \<or> error_result r) \<and> textLength r = None"
  using assms
  by (auto simp add: detectByRange_fst range_try_fst error_result_def
        split: option.splits if_splits sum.splits exn.splits)

lemma detectByClone_shape:
  assumes "fst (detectByClone env t text s) = Inr r"
  shows "(error r = None \<and> textLength r \<noteq> None) \<or> (error_result r \<and> textLength r = None)"
  using assms
  by (auto simp add: detectByClone_fst clone_try_fst error_result_def
        split: option.splits if_splits sum.splits exn.splits)



lemma sample_range:
  "detectByRange sample_env (Element 0) sample_dom =
     (Inr (createResult sample_dom True None
        \<lparr>d_textWidth = Some 140, d_containerWidth = Some 100, d_availableWidth = Some 90,
         d_overflowAmount = Some 50, d_textLength = None\<rparr>), sample_dom)"
proof -
  have "fst (detectByRange sample_env (Element 0) sample_dom) =
     Inr (createResult sample_dom True None
        \<lparr>d_textWidth = Some 140, d_containerWidth = Some 100, d_availableWidth = Some 90,
         d_overflowAmount = Some 50, d_textLength = None\<rparr>)"
    by (simp add: detectByRange_fst range_try_fst availableWidth_of_def sample_env_def
          sample_dom_def or_zero_def Math_round_def Math_max_def)
  then show ?thesis
    using detectByRange_state [of sample_env "Element 0" sample_dom]
    by (simp add: prod_eq_iff)
qed

subsection \<open>The overflow decision\<close>





lemma sample_template_ok: "template_ok sample_dom"
  by (simp add: template_ok_def sample_dom_def)


lemma sample_trim: "trim ''Hello, world'' \<noteq> []"
  by (simp add: trim_def isSpace_def)


subsection \<open>Results do not depend on earlier measurements\<close>








subsection \<open>The scratch node on the error path\<close>

lemma detectByClone_leak:
  assumes "getElement env t = Some e"
    and "trim (testTextOf env s e text) \<noteq> []"
    and "getComputedStyle env e = Inr cs"
    and "fst (clone_try env e (testTextOf env s e text) s) = Inl ex"
    and "template_ok s"
    and "\<forall>n\<in>set (bodyChildren s). n < nextNode s"
    and "\<forall>m. measureElement s = Some m \<longrightarrow> m \<notin> set (bodyChildren s)"
  shows "bodyChildren (snd (detectByClone env t text s)) =
           bodyChildren s @ [fst (getMeasureElement s)]"
proof -
  let ?m = "fst (getMeasureElement s)"
  let ?a = "attached cs (testTextOf env s e text) s"
  have fresh: "?m \<notin> set (bodyChildren s)"
    using assms(6) getMeasureElement_fields(1) [of s] by auto
  then have body: "bodyChildren ?a = bodyChildren s @ [?m]"
    by (simp add: attached_fields)
  have "m \<notin> set (bodyChildren ?a)" if m: "measureElement ?a = Some m" for m
  proof -
    from m have m': "measureElement (snd (getMeasureElement s)) = Some m"
      by (simp add: attached_fields)
    then have "m < ?m" using assms(5) getMeasureElement_measureElement by blast
    moreover have "m \<notin> set (bodyChildren s)"
    proof (cases "measureElement s")
      case None
      with m' have "m = nextNode s"
        by (simp add: getMeasureElement_def Let_def split_beta)
      then show ?thesis using assms(6) by auto
    next
      case (Some m0)
      with m' have "m = m0"
        by (simp add: getMeasureElement_def Let_def split_beta)
      then show ?thesis using assms(7) Some by simp
    qed
    ultimately show ?thesis by (simp add: body)
  qed
  then have "bodyChildren (snd (clone_catch ex ?a)) = bodyChildren ?a"
    by (simp add: clone_catch_body)
  then show ?thesis
    using assms(1-4) body by (simp add: detectByClone_snd clone_try_snd)
qed

lemma detectByClone_detaches_on_success:
  assumes "fst (detectByClone env t text s) = Inr r" and "error r = None"
    and "\<forall>n\<in>set (bodyChildren s). n < nextNode s"
  shows "bodyChildren (snd (detectByClone env t text s)) = bodyChildren s"
proof -
  let ?m = "fst (getMeasureElement s)"
  have fresh: "?m \<notin> set (bodyChildren s)"
    using assms(3) getMeasureElement_fields(1) [of s] by auto
  from assms(1,2) obtain e where e: "getElement env t = Some e"
    and tx: "trim (testTextOf env s e text) \<noteq> []"
    and ok: "fst (clone_try env e (testTextOf env s e text) s) = Inr r"
    by (auto simp add: detectByClone_fst split: option.splits if_splits sum.splits exn.splits)
  from ok obtain cs where cs: "getComputedStyle env e = Inr cs"
    by (auto simp add: clone_try_fst split: sum.splits)
  show ?thesis
    using e tx ok cs fresh
    by (simp add: detectByClone_snd clone_try_snd attached_fields)
qed

lemma sample_scratch: "fst (getMeasureElement sample_dom) = 2"
  by (simp add: getMeasureElement_def sample_dom_def Let_def split_beta)

lemma throwing_text: "testTextOf throwing_env sample_dom 0 None = ''Hello, world''"
  by (simp add: testTextOf_def sample_dom_def)

lemma throwing_clone_try:
  "fst (clone_try throwing_env 0 ''Hello, world'' sample_dom) = Inl (Error ''boom'')"
proof -
  have sw: "scratchWidth throwing_env (scratch_rec cs ''Hello, world'') = Inr 84" for cs
    by (simp add: throwing_env_def sample_env_def scratch_rec_def)
  have "\<exists>cs. getComputedStyle throwing_env 0 = Inr cs"
    by (simp add: throwing_env_def sample_env_def)
  then obtain cs where cs: "getComputedStyle throwing_env 0 = Inr cs" by blast
  have ow: "offsetWidth throwing_env 0 = Inl (Error ''boom'')"
    by (simp add: throwing_env_def)
  show ?thesis
    by (simp add: clone_try_fst cs ow attached_scratch [OF sample_template_ok] sw)
qed

subsection \<open>The subscription as a timer-reset machine\<close>

lemma debouncedCallback_fields:
  assumes "single_timer w"
  shows "timers (debouncedCallback w) = [(nextTimer w, now (page w) + sub_debounce w)]"
    and "timeoutId (debouncedCallback w) = Some (nextTimer w)"
    and "page (debouncedCallback w) = page w"
    and "observing (debouncedCallback w) = observing w"
    and "calls (debouncedCallback w) = calls w"
    and "sub_debounce (debouncedCallback w) = sub_debounce w"
    and "sub_element (debouncedCallback w) = sub_element w"
  using assms
  by (auto simp add: debouncedCallback_def clearTimeout_def setTimeout_def single_timer_def
        Let_def split: option.splits list.splits)

lemma fire_fields:
  "timers (fire env tm w) = timers w"
  "timeoutId (fire env tm w) = timeoutId w"
  "observing (fire env tm w) = observing w"
  "sub_debounce (fire env tm w) = sub_debounce w"
  "sub_element (fire env tm w) = sub_element w"
  "now (page (fire env tm w)) = snd tm"
  "map fst (calls (fire env tm w)) = map fst (calls w) @ [snd tm]"
proof -
  let ?d = "(page w)\<lparr>now := snd tm\<rparr>"
  obtain r where r: "fst (detect env (Element (sub_element w)) None ?d) = Inr r"
    using detect_returns by blast
  then obtain d' where d: "detect env (Element (sub_element w)) None ?d = (Inr r, d')"
    by (cases "detect env (Element (sub_element w)) None ?d") simp
  have n: "now d' = snd tm"
    using detect_fields(1) [of env "Element (sub_element w)" None ?d] d by simp
  show "timers (fire env tm w) = timers w" "timeoutId (fire env tm w) = timeoutId w"
    "observing (fire env tm w) = observing w" "sub_debounce (fire env tm w) = sub_debounce w"
    "sub_element (fire env tm w) = sub_element w" "now (page (fire env tm w)) = snd tm"
    "map fst (calls (fire env tm w)) = map fst (calls w) @ [snd tm]"
    using n by (simp_all add: fire_def d)
qed

lemma step_refines:
  assumes "single_timer w"
  shows "single_timer (step env ev w) \<and> sub_debounce (step env ev w) = sub_debounce w \<and>
         abstraction (step env ev w) = debounce_step (sub_debounce w) ev (abstraction w)"
proof (cases ev)
  case Mutation
  then show ?thesis
    using assms
    by (simp add: mutation_def debouncedCallback_fields abstraction_def pending_def
          single_timer_def)
next
  case (Wait d)
  show ?thesis
  proof (cases "timers w")
    case Nil
    then show ?thesis
      using Wait
      by (simp add: advance_def Let_def abstraction_def pending_def single_timer_def)
  next
    case (Cons tm rest)
    then have t: "timers w = [tm]" using assms by (simp add: single_timer_def)
    show ?thesis
    proof (cases "snd tm \<le> now (page w) + d")
      case True
      then show ?thesis
        using Wait t assms
        by (simp add: advance_def Let_def abstraction_def pending_def single_timer_def
              fire_fields)
    next
      case False
      then show ?thesis
        using Wait t assms
        by (simp add: advance_def Let_def abstraction_def pending_def single_timer_def)
    qed
  qed
next
  case Disconnect
  then show ?thesis
    using assms
    by (simp add: disconnect_def abstraction_def pending_def single_timer_def
          split: list.splits)
qed

lemma run_refines:
  assumes "single_timer w"
  shows "single_timer (run env evs w) \<and> sub_debounce (run env evs w) = sub_debounce w \<and>
         abstraction (run env evs w) = debounce_run (sub_debounce w) evs (abstraction w)"
  using assms unfolding run_def debounce_run_def
proof (induction evs arbitrary: w)
  case Nil
  then show ?case by simp
next
  case (Cons ev evs)
  from step_refines [OF Cons.prems, of env ev] Cons.IH [of "step env ev w"]
  show ?case by simp
qed

lemma observe_returns:
  assumes "getElement env t = Some e"
  shows "\<exists>w. observe env t opts d = Inr w \<and> single_timer w \<and> sub_element w = e \<and>
           sub_debounce w = (case opt_debounce opts of None \<Rightarrow> 100 | Some n \<Rightarrow> n) \<and>
           calls w = [] \<and> page w = d \<and> observing w \<and>
           timers w = (if (case opt_immediate opts of None \<Rightarrow> True | Some b \<Rightarrow> b)
                       then [(0, now d + sub_debounce w)] else [])"
  using assms
  by (simp add: observe_def Let_def debouncedCallback_def clearTimeout_def setTimeout_def
        single_timer_def)

subsection \<open>Bursts and cancellation on the machine\<close>

lemma machine_gaps:
  assumes "m_observing st" and "m_pending st = Some (m_now st + D)"
    and "\<forall>g\<in>set gaps. g < D"
  shows "fold (debounce_step D) (concat (map (\<lambda>g. [Wait g, Mutation]) gaps)) st =
           st\<lparr>m_pending := Some (m_now st + sum_list gaps + D),
              m_now := m_now st + sum_list gaps\<rparr>"
  using assms
proof (induction gaps arbitrary: st)
  case Nil
  then show ?case by simp
next
  case (Cons g gaps)
  let ?st = "st\<lparr>m_pending := Some (m_now st + g + D), m_now := m_now st + g\<rparr>"
  have g: "g < D" using Cons.prems(3) by simp
  then have one: "debounce_step D Mutation (debounce_step D (Wait g) st) = ?st"
    using Cons.prems(1,2) by simp
  have "fold (debounce_step D) (concat (map (\<lambda>g. [Wait g, Mutation]) gaps)) ?st =
          ?st\<lparr>m_pending := Some (m_now ?st + sum_list gaps + D),
               m_now := m_now ?st + sum_list gaps\<rparr>"
    using Cons.prems(1,3) by (intro Cons.IH) simp_all
  then show ?case
    using one by (simp add: add.assoc)
qed

lemma machine_burst:
  assumes "m_observing st" and "\<forall>g\<in>set gaps. g < D"
  shows "debounce_run D (burst gaps) st =
           st\<lparr>m_pending := Some (m_now st + sum_list gaps + D),
              m_now := m_now st + sum_list gaps\<rparr>"
  using machine_gaps [of "st\<lparr>m_pending := Some (m_now st + D)\<rparr>" D gaps] assms
  by (simp add: debounce_run_def burst_def)

lemma waited_no_wait: "\<not> has_wait evs \<Longrightarrow> waited evs = 0"
  by (induction evs) (auto simp add: waited_def has_wait_def split: event.splits)

lemma waited_Cons [simp]:
  "waited (Mutation # evs) = waited evs"
  "waited (Wait d # evs) = d + waited evs"
  "waited (Disconnect # evs) = waited evs"
  "waited [] = 0"
  by (simp_all add: waited_def)

lemma has_wait_Cons [simp]:
  "has_wait (Mutation # evs) = has_wait evs"
  "has_wait (Wait d # evs) = True"
  "has_wait (Disconnect # evs) = has_wait evs"
  "has_wait [] = False"
  by (simp_all add: has_wait_def)

lemma machine_cancelled:
  assumes "\<not> m_observing st"
  shows "m_fired (debounce_run D evs st) =
           m_fired st @ (case m_pending st of
                           None \<Rightarrow> []
                         | Some t \<Rightarrow>
                             if has_wait evs \<and> t \<le> m_now st + waited evs then [t] else [])"
  using assms unfolding debounce_run_def
proof (induction evs arbitrary: st)
  case Nil
  then show ?case by (simp split: option.splits)
next
  case (Cons ev evs)
  have n: "\<not> m_observing (debounce_step D ev st)"
    using Cons.prems by (cases ev) (simp_all split: option.splits)
  show ?case
  proof (cases ev)
    case Mutation
    then show ?thesis
      using Cons.IH [OF n] Cons.prems by (auto split: option.splits)
  next
    case (Wait d)
    then show ?thesis
      using Cons.IH [OF n] Cons.prems waited_no_wait [of evs]
      by (auto split: option.splits)
  next
    case Disconnect
    then show ?thesis
      using Cons.IH [OF n] Cons.prems by (auto split: option.splits)
  qed
qed

lemma machine_idle:
  "m_pending st = None \<Longrightarrow> m_fired (debounce_run D (map Wait ds) st) = m_fired st"
  unfolding debounce_run_def by (induction ds arbitrary: st) simp_all

lemma reachable_refines:
  assumes "observe env t opts d0 = Inr w0" and "w = run env evs0 w0"
  shows "single_timer w \<and> sub_debounce w = sub_debounce w0"
proof -
  from assms(1) have "getElement env t \<noteq> None"
    by (auto simp add: observe_def split: option.splits)
  then obtain e where "getElement env t = Some e" by blast
  from observe_returns [OF this, of opts d0] assms(1) have "single_timer w0" by auto
  from run_refines [OF this, of env evs0] assms(2) show ?thesis by simp
qed

lemma run_append: "run env (xs @ ys) w = run env ys (run env xs w)"
  by (simp add: run_def)

lemma sample_world_eq:
  "observe sample_env (Element 0) \<lparr>opt_immediate = None, opt_debounce = None\<rparr> sample_dom
     = Inr sample_world"
  by (simp add: observe_def debouncedCallback_def clearTimeout_def setTimeout_def Let_def
        sample_world_def sample_dom_def)

lemma sample_world_fields:
  "single_timer sample_world" "sub_debounce sample_world = 100" "calls sample_world = []"
  "observing sample_world" "timers sample_world = [(0, 100)]" "now (page sample_world) = 0"
  by (simp_all add: sample_world_def sample_dom_def single_timer_def)

lemma sample_abstraction:
  "abstraction sample_world =
     \<lparr>m_pending = Some 100, m_now = 0, m_observing = True, m_fired = []\<rparr>"
  by (simp add: abstraction_def pending_def sample_world_fields)

lemma sample_run:
  "map fst (calls (run sample_env evs sample_world)) =
     m_fired (debounce_run 100 evs \<lparr>m_pending = Some 100, m_now = 0, m_observing = True, m_fired = []\<rparr>)"
proof -
  have "abstraction (run sample_env evs sample_world) =
          debounce_run 100 evs (abstraction sample_world)"
    using run_refines [OF sample_world_fields(1), of sample_env evs]
    by (simp add: sample_world_fields)
  then have "m_fired (abstraction (run sample_env evs sample_world)) =
          m_fired (debounce_run 100 evs (abstraction sample_world))"
    by simp
  then show ?thesis by (simp add: sample_abstraction) (simp add: abstraction_def)
qed

lemma observe_not_immediate:
  assumes "observe env t opts d0 = Inr w" and "opt_immediate opts = Some False"
  shows "calls (run env (map Wait ds) w) = []"
proof -
  from assms(1) obtain e where "getElement env t = Some e"
    by (auto simp add: observe_def split: option.splits)
  from observe_returns [OF this, of opts d0] assms
  have w: "single_timer w" "calls w = []" "timers w = []" by auto
  have "abstraction (run env (map Wait ds) w) =
          debounce_run (sub_debounce w) (map Wait ds) (abstraction w)"
    using run_refines [OF w(1), of env "map Wait ds"] by simp
  then have "m_fired (abstraction (run env (map Wait ds) w)) = m_fired (abstraction w)"
    using machine_idle [of "abstraction w"] w(3) by (simp add: abstraction_def pending_def)
  then show ?thesis using w(2) by (simp add: abstraction_def)
qed

subsection \<open>Errors of the measurement\<close>

lemma error_result_createResult [simp]:
  "error_result (createResult s False (Some (c # m)) d)"
  by (simp add: error_result_def)















lemma sample_override_state:
  "nodes (snd (detect sample_env (Element 0) (Some ''A much longer caption'') sample_dom)) 2 =
     scratch_rec (\<lambda>prop. if prop = ''paddingLeft'' \<or> prop = ''paddingRight''
                          then ''5px'' else ''normal'') ''A much longer caption''"
proof -
  let ?cs = "\<lambda>prop. if prop = ''paddingLeft'' \<or> prop = ''paddingRight'' then ''5px'' else ''normal''"
  let ?tx = "''A much longer caption''"
  have cs: "getComputedStyle sample_env 0 = Inr ?cs" by (simp add: sample_env_def)
  have tt: "testTextOf sample_env sample_dom 0 (Some ?tx) = ?tx"
    by (simp add: testTextOf_def)
  have tr: "trim ?tx \<noteq> []" by (simp add: trim_def isSpace_def)
  have sw: "scratchWidth sample_env (scratch_rec ?cs ?tx) = Inr 147"
    by (simp add: sample_env_def scratch_rec_def)
  have ow: "offsetWidth sample_env 0 = Inr 100" by (simp add: sample_env_def)
  have "\<exists>r. fst (clone_try sample_env 0 ?tx sample_dom) = Inr r"
    by (simp add: clone_try_fst cs ow attached_scratch [OF sample_template_ok] sw)
  then obtain r where r: "fst (clone_try sample_env 0 ?tx sample_dom) = Inr r" by blast
  have "snd (detect sample_env (Element 0) (Some ?tx) sample_dom) =
          removeChild 2 (attached ?cs ?tx sample_dom)"
    by (simp add: detect_snd detectByClone_snd tt tr r clone_try_snd cs sample_scratch)
  then show ?thesis
    using attached_scratch [OF sample_template_ok, of ?cs ?tx] by (simp add: sample_scratch)
qed

section \<open>Properties\<close>

text \<open>
  C1. The failing call: the target has text, its computed style can be read, and its
  \<open>offsetWidth\<close> getter throws once the scratch node is attached. The \<open>catch\<close> block
  tests the static template, which is never attached, so the clone (node 2) stays in the
  body after \<open>detectByClone\<close> has returned its error result.
\<close>

theorem detectByClone_leaves_scratch_attached:
  "bodyChildren sample_dom = [0] \<and>
   bodyChildren (snd (detectByClone throwing_env (Element 0) None sample_dom)) = [0, 2] \<and>
   fst (detectByClone throwing_env (Element 0) None sample_dom) =
     Inr (createResult sample_dom False (Some ''Clone detection failed: boom'') no_details)"
proof -
  have b: "bodyChildren sample_dom = [0]" by (simp add: sample_dom_def)
  have "\<exists>cs. getComputedStyle throwing_env 0 = Inr cs"
    by (simp add: throwing_env_def sample_env_def)
  then obtain cs where cs: "getComputedStyle throwing_env 0 = Inr cs" by blast
  have "bodyChildren (snd (detectByClone throwing_env (Element 0) None sample_dom)) =
          bodyChildren sample_dom @ [fst (getMeasureElement sample_dom)]"
  proof (rule detectByClone_leak [where e = 0 and cs = cs and ex = "Error ''boom''"])
    show "getElement throwing_env (Element 0) = Some 0" by simp
    show "trim (testTextOf throwing_env sample_dom 0 None) \<noteq> []"
      by (simp add: throwing_text sample_trim)
    show "getComputedStyle throwing_env 0 = Inr cs" by (rule cs)
    show "fst (clone_try throwing_env 0 (testTextOf throwing_env sample_dom 0 None) sample_dom)
            = Inl (Error ''boom'')"
      by (simp add: throwing_text throwing_clone_try)
    show "template_ok sample_dom" by (rule sample_template_ok)
    show "\<forall>n\<in>set (bodyChildren sample_dom). n < nextNode sample_dom"
      by (simp add: sample_dom_def)
    show "\<forall>m. measureElement sample_dom = Some m \<longrightarrow> m \<notin> set (bodyChildren sample_dom)"
      by (simp add: sample_dom_def)
  qed
  then have l: "bodyChildren (snd (detectByClone throwing_env (Element 0) None sample_dom)) = [0, 2]"
    by (simp add: b sample_scratch)
  have r: "fst (detectByClone throwing_env (Element 0) None sample_dom) =
     Inr (createResult sample_dom False (Some ''Clone detection failed: boom'') no_details)"
    by (simp add: detectByClone_fst throwing_text sample_trim throwing_clone_try)
  from b l r show ?thesis by simp
qed

text \<open>
  C2. The failing call: \<open>observe\<close> with the default options (\<open>immediate\<close> true, 100 ms).
  When it returns, no detection has run and no callback has been invoked: the detection
  is only queued for 100 ms later. A mutation at 50 ms resets that timeout, so the first
  detection runs at 150 ms, after the mutation was observed.
\<close>

theorem observe_immediate_is_deferred:
  "observe sample_env (Element 0) \<lparr>opt_immediate = None, opt_debounce = None\<rparr> sample_dom
     = Inr sample_world \<and>
   calls sample_world = [] \<and> timers sample_world = [(0, 100)] \<and>
   now (page sample_world) = 0 \<and>
   map fst (calls (run sample_env [Wait 50, Mutation] sample_world)) = [] \<and>
   map fst (calls (run sample_env [Wait 50, Mutation, Wait 100] sample_world)) = [150]"
  by (simp add: sample_world_eq sample_world_fields sample_run debounce_run_def)

text \<open>
  C3 as stated fails: the handle is the MutationObserver, and disconnecting it leaves the
  timeout alone. Cancelling right after subscribing, the pending timeout is still queued
  and the callback runs at 100 ms.
\<close>

theorem cancel_counterexample:
  "observe sample_env (Element 0) \<lparr>opt_immediate = None, opt_debounce = None\<rparr> sample_dom
     = Inr sample_world \<and>
   timers (run sample_env [Disconnect] sample_world) = [(0, 100)] \<and>
   map fst (calls (run sample_env [Disconnect] sample_world)) = [] \<and>
   map fst (calls (run sample_env [Disconnect, Wait 100] sample_world)) = [100]"
proof -
  have "timers (run sample_env [Disconnect] sample_world) = [(0, 100)]"
    by (simp add: run_def disconnect_def sample_world_fields)
  then show ?thesis by (simp add: sample_world_eq sample_run debounce_run_def)
qed

text \<open>
  C3, amended. Cancelling the handle (\<open>disconnect\<close>) leaves the timer queue as it is.
  Whatever happens afterwards, mutations included, the only callback that can still be
  invoked is the one whose timer was pending at the cancellation, once, at the time it was
  due; with no timer pending no callback is invoked any more.
\<close>

theorem cancel_keeps_pending_timer:
  assumes "observe env t opts d0 = Inr w0" and "w = run env evs0 w0"
  shows "timers (run env [Disconnect] w) = timers w \<and>
         map fst (calls (run env (Disconnect # evs) w)) =
           map fst (calls w) @
             (case pending w of
                None \<Rightarrow> []
              | Some t \<Rightarrow> if has_wait evs \<and> t \<le> now (page w) + waited evs then [t] else [])"
proof -
  have st: "single_timer w" using reachable_refines [OF assms] by simp
  let ?a = "debounce_step (sub_debounce w) Disconnect (abstraction w)"
  have "abstraction (run env (Disconnect # evs) w) =
          debounce_run (sub_debounce w) evs ?a"
    using run_refines [OF st, of env "Disconnect # evs"] by (simp add: debounce_run_def)
  then have "m_fired (abstraction (run env (Disconnect # evs) w)) =
          m_fired (debounce_run (sub_debounce w) evs ?a)"
    by simp
  also have "\<dots> = m_fired ?a @ (case m_pending ?a of
                           None \<Rightarrow> []
                         | Some t \<Rightarrow>
                             if has_wait evs \<and> t \<le> m_now ?a + waited evs then [t] else [])"
    by (rule machine_cancelled) simp
  finally have "map fst (calls (run env (Disconnect # evs) w)) =
           map fst (calls w) @
             (case pending w of
                None \<Rightarrow> []
              | Some t \<Rightarrow> if has_wait evs \<and> t \<le> now (page w) + waited evs then [t] else [])"
    by (simp add: abstraction_def split: option.splits)
  moreover have "timers (run env [Disconnect] w) = timers w"
    by (simp add: run_def disconnect_def)
  ultimately show ?thesis by simp
qed

theorem cancel_keeps_pending_timer_witness:
  "observe sample_env (Element 0) \<lparr>opt_immediate = None, opt_debounce = None\<rparr> sample_dom
     = Inr sample_world \<and>
   timers (run sample_env [Disconnect] sample_world) = timers sample_world \<and>
   map fst (calls (run sample_env [Disconnect, Mutation, Wait 60, Mutation, Wait 500] sample_world))
     = [100]"
proof -
  have w: "sample_world = run sample_env [] sample_world" by (simp add: run_def)
  from cancel_keeps_pending_timer [OF sample_world_eq w, of "[Mutation, Wait 60, Mutation, Wait 500]"]
  show ?thesis
    by (simp add: sample_world_eq sample_world_fields pending_def)
qed

text \<open>
  C4. In any state of a connected subscription, a burst of mutations whose gaps are all
  shorter than the debounce interval causes no callback while it lasts, and exactly one
  once the interval has passed: at the time of the last mutation plus the interval
  (100 ms by default).
\<close>

theorem burst_fires_once:
  assumes "observe env t opts d0 = Inr w0" and "w = run env evs0 w0" and "observing w"
    and "\<forall>g\<in>set gaps. g < sub_debounce w" and "sub_debounce w \<le> d"
  shows "map fst (calls (run env (burst gaps) w)) = map fst (calls w) \<and>
         map fst (calls (run env (burst gaps @ [Wait d]) w)) =
           map fst (calls w) @ [now (page w) + sum_list gaps + sub_debounce w]"
proof -
  let ?D = "sub_debounce w"
  have st: "single_timer w" using reachable_refines [OF assms(1,2)] by simp
  have ob: "m_observing (abstraction w)" using assms(3) by (simp add: abstraction_def)
  have a: "abstraction (run env (burst gaps) w) =
             (abstraction w)\<lparr>m_pending := Some (m_now (abstraction w) + sum_list gaps + ?D),
                              m_now := m_now (abstraction w) + sum_list gaps\<rparr>"
    using run_refines [OF st, of env "burst gaps"] machine_burst [OF ob assms(4)] by simp
  then have "m_fired (abstraction (run env (burst gaps) w)) = m_fired (abstraction w)"
    by simp
  then have one: "map fst (calls (run env (burst gaps) w)) = map fst (calls w)"
    by (simp add: abstraction_def)
  have st': "single_timer (run env (burst gaps) w)"
    and D': "sub_debounce (run env (burst gaps) w) = ?D"
    using run_refines [OF st, of env "burst gaps"] by simp_all
  have "abstraction (run env (burst gaps @ [Wait d]) w) =
          debounce_step ?D (Wait d) (abstraction (run env (burst gaps) w))"
    using step_refines [OF st', of env "Wait d"] D' by (simp add: run_append run_def)
  then have "m_fired (abstraction (run env (burst gaps @ [Wait d]) w)) =
          m_fired (abstraction w) @ [m_now (abstraction w) + sum_list gaps + ?D]"
    using a assms(5) by simp
  then have "map fst (calls (run env (burst gaps @ [Wait d]) w)) =
           map fst (calls w) @ [now (page w) + sum_list gaps + ?D]"
    by (simp add: abstraction_def)
  with one show ?thesis by simp
qed

theorem burst_fires_once_witness:
  "observe sample_env (Element 0) \<lparr>opt_immediate = None, opt_debounce = None\<rparr> sample_dom
     = Inr sample_world \<and>
   observing sample_world \<and> sub_debounce sample_world = 100 \<and>
   map fst (calls (run sample_env (burst [10, 10]) sample_world)) = [] \<and>
   map fst (calls (run sample_env (burst [10, 10] @ [Wait 100]) sample_world)) = [120]"
proof -
  have w: "sample_world = run sample_env [] sample_world" by (simp add: run_def)
  have g: "\<forall>g\<in>set [10, 10]. g < sub_debounce sample_world"
    by (simp add: sample_world_fields)
  have d: "sub_debounce sample_world \<le> 100" by (simp add: sample_world_fields)
  from burst_fires_once [OF sample_world_eq w sample_world_fields(4) g d]
  show ?thesis
    by (simp add: sample_world_eq sample_world_fields)
qed

text \<open>
  C5. With a non-empty text override \<open>detect\<close> is \<open>detectByClone\<close> with that text. With no
  override, or with the empty string (which \<open>if (text)\<close> treats as none), \<open>detect\<close> is the
  range strategy, which leaves the document as it is; only when its result carries an error
  is the answer that of \<open>detectByClone\<close> on the element's own text, error or not.
\<close>

theorem detect_dispatch:
  "(truthy text \<longrightarrow> detect env t text s = detectByClone env t text s) \<and>
   (\<not> truthy text \<longrightarrow>
      (\<exists>r. detectByRange env t s = (Inr r, s) \<and>
           detect env t text s =
             (if error r = None then (Inr r, s) else detectByClone env t None s)))"
proof -
  obtain r where r: "detectByRange env t s = (Inr r, s)"
    using detectByRange_returns [of env t s] detectByRange_state [of env t s]
    by (cases "detectByRange env t s") auto
  then have "error r = None \<or> error_result r"
    using detectByRange_shape [of env t s r] by simp
  then have "truthy (error r) = (error r \<noteq> None)"
    by (auto simp add: error_result_def)
  with r show ?thesis by (simp add: detect_def)
qed

theorem detect_dispatch_witness:
  "truthy (Some ''Hi'') \<and> \<not> truthy None \<and>
   detect sample_env (Element 0) (Some ''Hi'') sample_dom
     = detectByClone sample_env (Element 0) (Some ''Hi'') sample_dom \<and>
   (\<exists>r. detectByRange sample_env (Element 0) sample_dom = (Inr r, sample_dom) \<and>
        detect sample_env (Element 0) None sample_dom =
          (if error r = None then (Inr r, sample_dom)
           else detectByClone sample_env (Element 0) None sample_dom))"
  using detect_dispatch [of "Some ''Hi''" sample_env "Element 0" sample_dom]
    detect_dispatch [of None sample_env "Element 0" sample_dom]
  by simp

theorem detect_empty_override_counterexample:
  "fst (detect sample_env (Element 0) (Some []) sample_dom)
     \<noteq> fst (detectByClone sample_env (Element 0) (Some []) sample_dom)"
proof
  assume eq: "fst (detect sample_env (Element 0) (Some []) sample_dom)
     = fst (detectByClone sample_env (Element 0) (Some []) sample_dom)"
  let ?r = "createResult sample_dom True None
        \<lparr>d_textWidth = Some 140, d_containerWidth = Some 100, d_availableWidth = Some 90,
         d_overflowAmount = Some 50, d_textLength = None\<rparr>"
  have "fst (detect sample_env (Element 0) (Some []) sample_dom) = Inr ?r"
    by (simp add: detect_def sample_range)
  with eq have "fst (detectByClone sample_env (Element 0) (Some []) sample_dom) = Inr ?r"
    by simp
  from detectByClone_shape [OF this] show False
    by (simp add: error_result_def)
qed







text \<open>
  C9. \<open>detect\<close>, with or without a text override, never changes the target element: every
  element that existed before the call, the target among them, has the same text, child
  count and style afterwards. The override text and the copied styles go to nodes created
  during the call.
\<close>

theorem detect_leaves_target_unchanged:
  assumes "getElement env t = Some e" and "e < nextNode s"
  shows "nodes (snd (detect env t text s)) e = nodes s e \<and>
         (\<forall>n<nextNode s. nodes (snd (detect env t text s)) n = nodes s n)"
  using assms by (simp add: detect_fields)

theorem detect_leaves_target_unchanged_witness:
  "getElement sample_env (Element 0) = Some 0 \<and> 0 < nextNode sample_dom \<and>
   nodes (snd (detect sample_env (Element 0) (Some ''A much longer caption'') sample_dom)) 0
     = nodes sample_dom 0 \<and>
   textContent (nodes sample_dom 0) = ''Hello, world'' \<and>
   textContent
     (nodes (snd (detect sample_env (Element 0) (Some ''A much longer caption'') sample_dom)) 2)
     = ''A much longer caption''"
  using detect_leaves_target_unchanged
    [of sample_env "Element 0" 0 sample_dom "Some ''A much longer caption''"]
  by (simp add: sample_override_state scratch_rec_def) (simp add: sample_dom_def)

text \<open>
  C10. After a first \<open>getWidth(true)\<close> has returned \<open>w\<close> from an empty cache, \<open>w\<close> is not
  negative and is cached; whatever \<open>getWidth\<close> calls follow, a call with the cache enabled
  returns \<open>w\<close> and leaves the whole state as it is (nothing is measured), a call with the
  cache disabled measures again (new probe elements are created) and leaves the cached
  value alone, and after \<open>clearCache\<close> the next call measures again.
\<close>

theorem getWidth_cache:
  assumes "cachedWidth st0 = None" and "getWidth env True st0 = (Inr w, st1)"
  shows "0 \<le> w \<and> cachedWidth st1 = Some w \<and>
     (\<forall>flags. let st = getWidth_calls env flags st1 in
        cachedWidth st = Some w \<and>
        getWidth env True st = (Inr w, st) \<and>
        getWidth env False st =
          (fst (measureScrollbarWidth env (doc st)),
           st\<lparr>doc := snd (measureScrollbarWidth env (doc st))\<rparr>) \<and>
        nextNode (doc st) < nextNode (doc (snd (getWidth env False st))) \<and>
        cachedWidth (snd (getWidth env False st)) = Some w \<and>
        cachedWidth (clearCache st) = None \<and>
        fst (getWidth env True (clearCache st)) = fst (measureScrollbarWidth env (doc st)))"
proof -
  from assms have m: "fst (measureScrollbarWidth env (doc st0)) = Inr w"
    and c: "cachedWidth st1 = Some w"
    using getWidth_first by blast+
  from m have "0 \<le> w" by (rule measureScrollbarWidth_nonneg)
  moreover have "cachedWidth (getWidth_calls env flags st1) = Some w" for flags
    using c by (rule getWidth_calls_keep_cache)
  ultimately show ?thesis
    using c
    by (simp add: Let_def getWidth_cached getWidth_uncached getWidth_after_clear
          measureScrollbarWidth_allocates)
qed

theorem getWidth_cache_witness:
  "cachedWidth sample_sb = None \<and>
   getWidth sample_env True sample_sb = (Inr 15, snd (getWidth sample_env True sample_sb)) \<and>
   getWidth sample_env True
      (getWidth_calls sample_env [True, False, True] (snd (getWidth sample_env True sample_sb)))
     = (Inr 15, getWidth_calls sample_env [True, False, True] (snd (getWidth sample_env True sample_sb)))"
proof -
  have n: "cachedWidth sample_sb = None" by (simp add: sample_sb_def)
  have "fst (measureScrollbarWidth sample_env (doc sample_sb)) = Inr 15"
    by (simp add: measureScrollbarWidth_fst sample_sb_def sample_dom_def sample_env_def
          Math_max_def)
  then have "fst (getWidth sample_env True sample_sb) = Inr 15"
    using n by (simp add: getWidth_first_fst)
  then have g: "getWidth sample_env True sample_sb
                  = (Inr 15, snd (getWidth sample_env True sample_sb))"
    by (simp add: prod_eq_iff)
  from getWidth_cache [OF n g] n g show ?thesis
    by (simp add: Let_def)
qed

end
